theory Spec2Isabelle
  imports Complex_Main "HOL-Library.Extended_Nat" "HOL-Library.Sublist"
begin

section \<open>Strings, cells and rows\<close>

text \<open>
  A JavaScript string is a sequence of UTF-16 code units; a code unit is modelled as a
  natural number. \<open>ascii\<close> turns an Isabelle literal into such a string, so that
  \<open>ascii ''acme''\<close> is the JavaScript string \<^verbatim>\<open>"acme"\<close>.

  A spreadsheet row is an array of cells; a cell is a string, or \<open>None\<close> for
  \<^verbatim>\<open>null\<close>/\<^verbatim>\<open>undefined\<close>. Reading past the end of a JavaScript array gives
  \<^verbatim>\<open>undefined\<close>, which \<open>cellAt\<close> writes out.
\<close>

type_synonym codeunit = nat
type_synonym jsstring = "codeunit list"
type_synonym cell = "jsstring option"
type_synonym row = "cell list"

definition ascii :: "string \<Rightarrow> jsstring" where
  "ascii s = map of_char s"

definition cellAt :: "row \<Rightarrow> nat \<Rightarrow> cell" where
  "cellAt r i = (if i < length r then r ! i else None)"

text \<open>\<^verbatim>\<open>row[i] || ""\<close>: a missing, null or empty cell reads as the empty string.\<close>

definition orEmpty :: "cell \<Rightarrow> jsstring" where
  "orEmpty c = (case c of None \<Rightarrow> [] | Some s \<Rightarrow> s)"

text \<open>
  \<^verbatim>\<open>String.prototype.trim\<close> removes WhiteSpace and LineTerminator code units from both
  ends: TAB, LF, VT, FF, CR, SPACE, NBSP, U+1680, U+2000..U+200A, U+2028, U+2029,
  U+202F, U+205F, U+3000 and U+FEFF.
\<close>

definition isWhiteSpace :: "codeunit \<Rightarrow> bool" where
  "isWhiteSpace c \<longleftrightarrow>
     c \<in> {9, 10, 11, 12, 13, 32, 160, 5760, 8232, 8233, 8239, 8287, 12288, 65279}
     \<or> (8192 \<le> c \<and> c \<le> 8202)"

definition trim :: "jsstring \<Rightarrow> jsstring" where
  "trim s = rev (dropWhile isWhiteSpace (rev (dropWhile isWhiteSpace s)))"

section \<open>Text normalizer (src/utils/textUtils.ts)\<close>

text \<open>
  \<^verbatim>\<open>normalizeText\<close> chains three built-ins of the JavaScript runtime whose tables are
  not part of the repository: \<^verbatim>\<open>toLowerCase()\<close>, \<^verbatim>\<open>normalize("NFKD")\<close> and the removal of
  every match of \<^verbatim>\<open>/\p{Diacritic}/gu\<close>. They are taken as parameters, bundled in a record;
  everything the repository itself writes (the digit map, the collapse of
  non-alphanumeric runs, the trim) is modelled in full.
\<close>

record unicode =
  toLowerCase :: "jsstring \<Rightarrow> jsstring"
  normalizeNFKD :: "jsstring \<Rightarrow> jsstring"
  removeDiacritics :: "jsstring \<Rightarrow> jsstring"

text \<open>
  The \<^verbatim>\<open>digitMap\<close> replacement: superscript digits U+2070, U+00B9, U+00B2, U+00B3,
  U+2074..U+2079 and subscript digits U+2080..U+2089 become ASCII digits
  (\<open>48\<close> is \<^verbatim>\<open>"0"\<close>); every other code unit is kept.
\<close>

definition digitMap :: "codeunit \<Rightarrow> codeunit" where
  "digitMap c =
     (if c = 8304 then 48
      else if c = 185 then 49
      else if c = 178 then 50
      else if c = 179 then 51
      else if 8308 \<le> c \<and> c \<le> 8313 then c - 8308 + 52
      else if 8320 \<le> c \<and> c \<le> 8329 then c - 8320 + 48
      else c)"

text \<open>The character class \<^verbatim>\<open>[a-z0-9]\<close>.\<close>

definition isAlnum :: "codeunit \<Rightarrow> bool" where
  "isAlnum c \<longleftrightarrow> (97 \<le> c \<and> c \<le> 122) \<or> (48 \<le> c \<and> c \<le> 57)"

text \<open>\<^verbatim>\<open>.replace(/[^a-z0-9]+/g, " ")\<close>: every maximal run of other code units becomes one space.\<close>

function replaceNonAlnum :: "jsstring \<Rightarrow> jsstring" where
  "replaceNonAlnum [] = []"
| "replaceNonAlnum (c # cs) =
     (if isAlnum c then c # replaceNonAlnum cs
      else 32 # replaceNonAlnum (dropWhile (\<lambda>d. \<not> isAlnum d) cs))"
  by pat_completeness auto
termination
  by (relation "measure length") (auto simp: le_imp_less_Suc length_dropWhile_le)

definition normalizeText :: "unicode \<Rightarrow> cell \<Rightarrow> jsstring" where
  "normalizeText U text =
     (case text of
        None \<Rightarrow> []
      | Some s \<Rightarrow>
          if s = [] then []
          else trim (replaceNonAlnum (removeDiacritics U
                 (map digitMap (normalizeNFKD U (toLowerCase U s))))))"

text \<open>
  The three built-ins on ASCII text, used to evaluate the model on concrete ASCII
  inputs: \<^verbatim>\<open>toLowerCase\<close> maps \<^verbatim>\<open>A-Z\<close> to \<^verbatim>\<open>a-z\<close>, NFKD leaves ASCII unchanged, and the
  only ASCII code points with the Diacritic property are \<^verbatim>\<open>^\<close> (94) and the grave
  accent (96).
\<close>

definition asciiUnicode :: unicode where
  "asciiUnicode =
     \<lparr> toLowerCase = map (\<lambda>c. if 65 \<le> c \<and> c \<le> 90 then c + 32 else c),
       normalizeNFKD = (\<lambda>s. s),
       removeDiacritics = filter (\<lambda>c. c \<noteq> 94 \<and> c \<noteq> 96) \<rparr>"

text \<open>
  The shape of a normalized key: only \<^verbatim>\<open>[a-z0-9]\<close> and single interior spaces (a space is
  always followed by an alphanumeric code unit, except possibly at the very end, which
  the trim removes).
\<close>

fun normalForm :: "jsstring \<Rightarrow> bool" where
  "normalForm [] = True"
| "normalForm [c] = (isAlnum c \<or> c = 32)"
| "normalForm (c # d # cs) = ((isAlnum c \<or> (c = 32 \<and> isAlnum d)) \<and> normalForm (d # cs))"

text \<open>
  What the proofs need of the three built-ins: they leave a string of lower-case ASCII
  letters, ASCII digits and spaces unchanged. The JavaScript built-ins do.
\<close>

definition keepsPlainText :: "unicode \<Rightarrow> bool" where
  "keepsPlainText U \<longleftrightarrow>
     (\<forall>s. (\<forall>c\<in>set s. isAlnum c \<or> c = 32) \<longrightarrow>
        toLowerCase U s = s \<and> normalizeNFKD U s = s \<and> removeDiacritics U s = s)"

section \<open>Fuzzy matcher (src/utils/matchingUtils.ts)\<close>

text \<open>
  \<^verbatim>\<open>distance\<close> is imported from the package \<^verbatim>\<open>fastest-levenshtein\<close>: the Levenshtein
  edit distance (insertions, deletions and substitutions of one code unit, each of cost 1).
\<close>

fun distance :: "jsstring \<Rightarrow> jsstring \<Rightarrow> nat" where
  "distance [] ys = length ys"
| "distance xs [] = length xs"
| "distance (x # xs) (y # ys) =
     min (min (distance xs (y # ys) + 1) (distance (x # xs) ys + 1))
         (distance xs ys + (if x = y then 0 else 1))"

text \<open>
  The loop of \<^verbatim>\<open>findBestMatch\<close>, with its two variables \<^verbatim>\<open>bestMatch\<close> (initially
  \<^verbatim>\<open>null\<close>) and \<^verbatim>\<open>bestScore\<close> (initially \<^verbatim>\<open>Infinity\<close>) as the state. An empty candidate
  is falsy and skipped.
\<close>

fun findBestMatchLoop ::
  "unicode \<Rightarrow> jsstring \<Rightarrow> jsstring list \<Rightarrow> jsstring option \<times> enat \<Rightarrow> jsstring option \<times> enat"
where
  "findBestMatchLoop U normalizedTarget [] st = st"
| "findBestMatchLoop U normalizedTarget (candidate # rest) (bestMatch, bestScore) =
     (if candidate = [] then findBestMatchLoop U normalizedTarget rest (bestMatch, bestScore)
      else
        let score = distance normalizedTarget (normalizeText U (Some candidate)) in
        if enat score < bestScore
        then findBestMatchLoop U normalizedTarget rest (Some candidate, enat score)
        else findBestMatchLoop U normalizedTarget rest (bestMatch, bestScore))"

definition findBestMatch :: "unicode \<Rightarrow> jsstring \<Rightarrow> jsstring list \<Rightarrow> nat \<Rightarrow> jsstring option" where
  "findBestMatch U target candidates maxDistance =
     (if target = [] then None
      else
        case findBestMatchLoop U (normalizeText U (Some target)) candidates (None, \<infinity>) of
          (bestMatch, bestScore) \<Rightarrow>
            if bestScore \<le> enat maxDistance then bestMatch else None)"

text \<open>The score \<^verbatim>\<open>findBestMatch\<close> gives a candidate: the distance between the normalized forms.\<close>

definition matchScore :: "unicode \<Rightarrow> jsstring \<Rightarrow> jsstring \<Rightarrow> nat" where
  "matchScore U target candidate =
     distance (normalizeText U (Some target)) (normalizeText U (Some candidate))"

text \<open>
  \<^verbatim>\<open>findMatchingReferrals\<close>, used for searchers: the referral rows whose name cell is
  non-empty and normalizes to the same key as the searcher's name. There is no edit
  distance here.
\<close>

definition findMatchingReferrals :: "unicode \<Rightarrow> jsstring \<Rightarrow> row list \<Rightarrow> nat \<Rightarrow> row list" where
  "findMatchingReferrals U searcherName referralRows referralNameColumn =
     (if searcherName = [] then []
      else
        let normalizedSearcherName = normalizeText U (Some searcherName) in
        filter (\<lambda>r. case cellAt r referralNameColumn of
                        None \<Rightarrow> False
                      | Some referralName \<Rightarrow>
                          referralName \<noteq> []
                          \<and> normalizeText U (Some referralName) = normalizedSearcherName)
               referralRows)"

section \<open>Plain objects used as dictionaries\<close>

text \<open>
  \<^verbatim>\<open>FORM_TYPE_MAPPINGS\<close> and the referral mapping are object literals, so \<^verbatim>\<open>obj[key]\<close>
  finds an own property, or else a member inherited from \<^verbatim>\<open>Object.prototype\<close> (a
  function or an object: truthy, and not one of the stored values), or else
  \<^verbatim>\<open>undefined\<close>. An object is modelled as the association list of its own properties in
  insertion order.
\<close>

definition objectPrototypeNames :: "jsstring list" where
  "objectPrototypeNames =
     [ascii ''constructor'', ascii ''__defineGetter__'', ascii ''__defineSetter__'',
      ascii ''hasOwnProperty'', ascii ''__lookupGetter__'', ascii ''__lookupSetter__'',
      ascii ''isPrototypeOf'', ascii ''propertyIsEnumerable'', ascii ''toString'',
      ascii ''valueOf'', ascii ''__proto__'', ascii ''toLocaleString'']"

datatype 'a lookup = Own 'a | Inherited | Absent

definition objectLookup :: "(jsstring \<times> 'a) list \<Rightarrow> jsstring \<Rightarrow> 'a lookup" where
  "objectLookup obj key =
     (case map_of obj key of
        Some v \<Rightarrow> Own v
      | None \<Rightarrow> if key \<in> set objectPrototypeNames then Inherited else Absent)"

text \<open>
  \<^verbatim>\<open>Object.keys\<close> lists the keys that are array indices (canonical decimal numerals below
  \<open>2^32 - 1\<close>) first, in ascending numeric order, and then every other key in insertion
  order.
\<close>

definition isDigit :: "codeunit \<Rightarrow> bool" where
  "isDigit c \<longleftrightarrow> 48 \<le> c \<and> c \<le> 57"

definition decimalValue :: "jsstring \<Rightarrow> nat" where
  "decimalValue s = foldl (\<lambda>n c. 10 * n + (c - 48)) 0 s"

definition isArrayIndex :: "jsstring \<Rightarrow> bool" where
  "isArrayIndex s \<longleftrightarrow>
     s \<noteq> [] \<and> list_all isDigit s \<and> (if hd s = 48 then length s = 1 else True)
     \<and> decimalValue s < 4294967295"

definition objectKeys :: "(jsstring \<times> 'a) list \<Rightarrow> jsstring list" where
  "objectKeys obj =
     sort_key decimalValue (filter isArrayIndex (map fst obj))
     @ filter (\<lambda>k. \<not> isArrayIndex k) (map fst obj)"

definition deleteKey :: "jsstring \<Rightarrow> (jsstring \<times> 'a) list \<Rightarrow> (jsstring \<times> 'a) list" where
  "deleteKey key obj = filter (\<lambda>kv. fst kv \<noteq> key) obj"

section \<open>Row classifier (src/processors/formClassifier.js)\<close>

datatype formType = Founder | FounderReferral | Searcher | SearcherReferral | Unknown

definition FORM_TYPE_MAPPINGS :: "(jsstring \<times> formType) list" where
  "FORM_TYPE_MAPPINGS =
     [(ascii ''i am a founder and i want to take my startup to the moon.'', Founder),
      (ascii ''i know an incredible founder, someone moonstone should get to know.'',
         FounderReferral),
      (ascii ''i am an entrepreneur and i want to be a searcher for moonstone's search fund.'',
         Searcher),
      (ascii (''i know an incredible entrepreneur, that would be a great searcher for ''
              @ ''moonstone's search fund.''), SearcherReferral)]"

text \<open>
  The argument of \<^verbatim>\<open>classifyFormType\<close>: \<^verbatim>\<open>null\<close>, \<^verbatim>\<open>undefined\<close>, some value that is not
  an array, or a row (whose cells are strings or \<^verbatim>\<open>null\<close>/\<^verbatim>\<open>undefined\<close>, as the sheet
  reader delivers them).
\<close>

datatype rowArgument = JsNull | JsUndefined | NotAnArray | IsArray row

text \<open>
  What \<^verbatim>\<open>classifyFormType\<close> returns: one of the five form type strings, or, when the
  lookup hits a name inherited from \<^verbatim>\<open>Object.prototype\<close>, that inherited member itself.
\<close>

datatype classification = FormType formType | PrototypeMember

definition classifyFormType :: "unicode \<Rightarrow> rowArgument \<Rightarrow> classification" where
  "classifyFormType U arg =
     (case arg of
        IsArray r \<Rightarrow>
          let formIntent = toLowerCase U (trim (orEmpty (cellAt r 3))) in
          (case objectLookup FORM_TYPE_MAPPINGS formIntent of
             Own formType \<Rightarrow> FormType formType
           | Inherited \<Rightarrow> PrototypeMember
           | Absent \<Rightarrow> FormType Unknown)
      | _ \<Rightarrow> FormType Unknown)"

record categories =
  founders :: "row list"
  founderReferrals :: "row list"
  searchers :: "row list"
  searcherReferrals :: "row list"
  unknown :: "row list"

text \<open>The loop of \<^verbatim>\<open>categorizeAllForms\<close>: classify, then push onto one of the five arrays.\<close>

fun categorizeLoop :: "unicode \<Rightarrow> row list \<Rightarrow> categories \<Rightarrow> categories" where
  "categorizeLoop U [] cats = cats"
| "categorizeLoop U (r # rest) cats =
     categorizeLoop U rest
       (case classifyFormType U (IsArray r) of
          FormType Founder \<Rightarrow> cats\<lparr>founders := founders cats @ [r]\<rparr>
        | FormType FounderReferral \<Rightarrow> cats\<lparr>founderReferrals := founderReferrals cats @ [r]\<rparr>
        | FormType Searcher \<Rightarrow> cats\<lparr>searchers := searchers cats @ [r]\<rparr>
        | FormType SearcherReferral \<Rightarrow> cats\<lparr>searcherReferrals := searcherReferrals cats @ [r]\<rparr>
        | _ \<Rightarrow> cats\<lparr>unknown := unknown cats @ [r]\<rparr>)"

definition categorizeAllForms :: "unicode \<Rightarrow> row list \<Rightarrow> categories" where
  "categorizeAllForms U allRows =
     categorizeLoop U allRows
       \<lparr>founders = [], founderReferrals = [], searchers = [], searcherReferrals = [],
        unknown = []\<rparr>"

section \<open>Derived fields (src/processors/founderProcessor.js, searcherProcessor.js)\<close>

text \<open>\<^verbatim>\<open>hasContent\<close> and \<^verbatim>\<open>countFilledFields\<close> of textUtils.\<close>

definition hasContent :: "cell \<Rightarrow> bool" where
  "hasContent c = (case c of None \<Rightarrow> False | Some s \<Rightarrow> s \<noteq> [] \<and> length (trim s) > 0)"

definition countFilledFields :: "row \<Rightarrow> nat list \<Rightarrow> nat" where
  "countFilledFields r indices =
     foldl (\<lambda>count index. count + (if hasContent (cellAt r index) then 1 else 0)) 0 indices"

text \<open>\<^verbatim>\<open>Array.from({ length: 50 }, (_, i) => 66 + i)\<close>: columns 66 to 115.\<close>

definition relevantIndices :: "nat list" where
  "relevantIndices = map (\<lambda>i. 66 + i) [0..<50]"

text \<open>
  \<^verbatim>\<open>Math.round(x)\<close> is \<open>\<lfloor>x + 1/2\<rfloor>\<close>. The quotient is modelled in exact rational
  arithmetic; the source computes it in binary floating point, which gives the same
  integer here because \<open>100 * answered / 50\<close> is itself an integer and the rounding error
  of the two operations stays far below \<open>1/2\<close>.
\<close>

definition mathRound :: "rat \<Rightarrow> int" where
  "mathRound x = \<lfloor>x + 1 / 2\<rfloor>"

definition completionPercent :: "row \<Rightarrow> int" where
  "completionPercent founderRow =
     (let answeredCount = countFilledFields founderRow relevantIndices
      in mathRound ((of_nat answeredCount / of_nat (length relevantIndices)) * 100))"

text \<open>The status names of \<^verbatim>\<open>buildFounderProperties\<close> and \<^verbatim>\<open>buildSearcherProperties\<close>.\<close>

definition founderStatusName :: "nat \<Rightarrow> jsstring option" where
  "founderStatusName referralCount =
     (if referralCount = 0 then None
      else if referralCount \<ge> 5 then Some (ascii ''V+ Endorsements'')
      else Some ([ascii ''I Endorsement'', ascii ''II Endorsements'', ascii ''III Endorsements'',
                  ascii ''IV Endorsements''] ! (referralCount - 1)))"

definition searcherReferralStatusName :: "nat \<Rightarrow> jsstring option" where
  "searcherReferralStatusName referralCount =
     (if referralCount = 0 then None
      else if referralCount \<ge> 5 then Some (ascii ''V+ Referrals'')
      else Some ([ascii ''I Referral'', ascii ''II Referrals'', ascii ''III Referrals'',
                  ascii ''IV Referrals''] ! (referralCount - 1)))"

text \<open>
  The two derived properties that \<^verbatim>\<open>createFounderPage\<close>/\<^verbatim>\<open>updateFounderPage\<close> and
  \<^verbatim>\<open>createSearcherPage\<close>/\<^verbatim>\<open>updateSearcherPage\<close> hand to the document store:
  \<^verbatim>\<open>referralCount\<close> is \<^verbatim>\<open>referrals.length\<close>.
\<close>

record derivedMetrics =
  completion :: "int option"
  tierLabel :: "jsstring option"

definition founderMetrics :: "row \<Rightarrow> row list \<Rightarrow> derivedMetrics" where
  "founderMetrics founderRow referrals =
     \<lparr>completion = Some (completionPercent founderRow),
      tierLabel = founderStatusName (length referrals)\<rparr>"

definition searcherMetrics :: "row \<Rightarrow> row list \<Rightarrow> derivedMetrics" where
  "searcherMetrics searcherRow referrals =
     \<lparr>completion = None, tierLabel = searcherReferralStatusName (length referrals)\<rparr>"

section \<open>Referral index (src/processors/founderProcessor.js, createReferralMapping)\<close>

record bucket =
  displayName :: jsstring
  referrals :: "row list"

type_synonym referralMapping = "(jsstring \<times> bucket) list"

text \<open>A thrown JavaScript error, with its \<^verbatim>\<open>message\<close>.\<close>

datatype error = Error (message: jsstring) | TypeError (message: jsstring)

text \<open>\<^verbatim>\<open>mapping[normalizedKey].referrals.push(row)\<close> on an own property.\<close>

definition pushReferral :: "jsstring \<Rightarrow> row \<Rightarrow> referralMapping \<Rightarrow> referralMapping" where
  "pushReferral key r mapping =
     map (\<lambda>kv. if fst kv = key then (fst kv, (snd kv)\<lparr>referrals := referrals (snd kv) @ [r]\<rparr>)
               else kv) mapping"

text \<open>
  The loop of \<^verbatim>\<open>createReferralMapping\<close>. When the normalized key is a name inherited
  from \<^verbatim>\<open>Object.prototype\<close>, \<^verbatim>\<open>!mapping[normalizedKey]\<close> is false, no bucket is created,
  and \<^verbatim>\<open>.referrals\<close> of the inherited member is \<^verbatim>\<open>undefined\<close>: the \<^verbatim>\<open>push\<close> throws a
  TypeError.
\<close>

fun createReferralMappingLoop ::
  "unicode \<Rightarrow> row list \<Rightarrow> referralMapping \<Rightarrow> error + referralMapping"
where
  "createReferralMappingLoop U [] mapping = Inr mapping"
| "createReferralMappingLoop U (r # rest) mapping =
     (let startupName = trim (orEmpty (cellAt r 9)) in
      if startupName = [] then createReferralMappingLoop U rest mapping
      else
        let normalizedKey = normalizeText U (Some startupName) in
        if normalizedKey = [] then createReferralMappingLoop U rest mapping
        else
          case objectLookup mapping normalizedKey of
            Inherited \<Rightarrow>
              Inl (TypeError (ascii ''Cannot read properties of undefined (reading 'push')''))
          | Own b \<Rightarrow> createReferralMappingLoop U rest (pushReferral normalizedKey r mapping)
          | Absent \<Rightarrow>
              createReferralMappingLoop U rest
                (pushReferral normalizedKey r
                   (mapping @ [(normalizedKey, \<lparr>displayName = startupName, referrals = []\<rparr>)])))"

definition createReferralMapping :: "unicode \<Rightarrow> row list \<Rightarrow> error + referralMapping" where
  "createReferralMapping U referralRows = createReferralMappingLoop U referralRows []"

section \<open>Reconciliation of founders (processSingleFounder, processFounders)\<close>

text \<open>
  The matching block of \<^verbatim>\<open>processSingleFounder\<close> (lines 137 to 147): the best match among
  the keys of the mapping, or the founder's own key; the referrals stored under it; and
  the deletion of that key when referrals were found.
\<close>

record reconciled =
  matchedKey :: jsstring
  matchedReferrals :: "row list"

definition matchFounder :: "unicode \<Rightarrow> jsstring \<Rightarrow> referralMapping \<Rightarrow> reconciled \<times> referralMapping" where
  "matchFounder U startupName mapping =
     (let founderKey = normalizeText U (Some startupName);
          key = (case findBestMatch U founderKey (objectKeys mapping) 2 of
                   Some m \<Rightarrow> if m = [] then founderKey else m
                 | None \<Rightarrow> founderKey);
          found = (case objectLookup mapping key of
                     Own referralData \<Rightarrow> referrals referralData
                   | _ \<Rightarrow> [])
      in (\<lparr>matchedKey = key, matchedReferrals = found\<rparr>,
          if length found > 0 then deleteKey key mapping else mapping))"

text \<open>
  Everything after the matching block talks to the document store
  (\<^verbatim>\<open>findPageByTitle\<close>, the page write, the content update). For one row these calls
  either throw (an error with a message), or succeed after finding an existing page, or
  succeed after finding none.
\<close>

datatype documentStore = StoreThrows jsstring | PageExists | PageAbsent

text \<open>
  \<^verbatim>\<open>processSingleFounder\<close>: the thrown error or the result \<^verbatim>\<open>{ created, updated }\<close> (as a
  pair), what was matched (nothing when the name is missing), and the mapping as the call
  leaves it.
\<close>

definition processSingleFounder ::
  "unicode \<Rightarrow> row \<Rightarrow> documentStore \<Rightarrow> referralMapping
     \<Rightarrow> (error + bool \<times> bool) \<times> reconciled option \<times> referralMapping"
where
  "processSingleFounder U founderRow store mapping =
     (let startupName = trim (orEmpty (cellAt founderRow 73)) in
      if startupName = [] then
        (Inl (Error (ascii ''Founder missing startup name'')), None, mapping)
      else
        case matchFounder U startupName mapping of
          (matched, mapping') \<Rightarrow>
            ((case store of
                StoreThrows msg \<Rightarrow> Inl (Error msg)
              | PageExists \<Rightarrow> Inr (False, True)
              | PageAbsent \<Rightarrow> Inr (True, False)),
             Some matched, mapping'))"

record results =
  processed :: nat
  created :: nat
  updated :: nat
  errors :: nat
  unmatchedReferrals :: nat

text \<open>
  A line written by \<^verbatim>\<open>console.error\<close> in a \<^verbatim>\<open>catch\<close> block: a fixed prefix, which the
  constructor stands for, followed by \<^verbatim>\<open>error.message\<close>.
\<close>

datatype logEntry = ErrorProcessingFounder jsstring | ErrorProcessingSearcher jsstring

text \<open>
  The state of the loop of \<^verbatim>\<open>processFounders\<close>: the counters, the mapping, the error
  lines, and, for every row that reached the matching block, the row with what was
  matched for it (the referrals handed to the page writes).
\<close>

record founderRun =
  counts :: results
  referralMapping :: referralMapping
  errorLog :: "logEntry list"
  reconciledRows :: "(row \<times> reconciled) list"

definition addReconciled :: "row \<Rightarrow> reconciled option \<Rightarrow> (row \<times> reconciled) list \<Rightarrow> (row \<times> reconciled) list" where
  "addReconciled r matched rows = (case matched of None \<Rightarrow> rows | Some m \<Rightarrow> rows @ [(r, m)])"

text \<open>
  The body of the \<^verbatim>\<open>for\<close> loop of \<^verbatim>\<open>processFounders\<close>: the \<^verbatim>\<open>try\<close> block counts the row
  as processed (and as created or updated); the \<^verbatim>\<open>catch\<close> block writes the error line
  and counts an error. Either way the loop goes on with the next row.
\<close>

definition founderStep :: "unicode \<Rightarrow> row \<times> documentStore \<Rightarrow> founderRun \<Rightarrow> founderRun" where
  "founderStep U x st =
     (case processSingleFounder U (fst x) (snd x) (referralMapping st) of
        (Inr (c, u), matched, mapping') \<Rightarrow>
          st\<lparr>counts := (counts st)
                 \<lparr>processed := processed (counts st) + 1,
                  created := created (counts st) + (if c then 1 else 0),
                  updated := updated (counts st) + (if u then 1 else 0)\<rparr>,
              referralMapping := mapping',
              reconciledRows := addReconciled (fst x) matched (reconciledRows st)\<rparr>
      | (Inl e, matched, mapping') \<Rightarrow>
          st\<lparr>counts := (counts st)\<lparr>errors := errors (counts st) + 1\<rparr>,
              referralMapping := mapping',
              errorLog := errorLog st @ [ErrorProcessingFounder (message e)],
              reconciledRows := addReconciled (fst x) matched (reconciledRows st)\<rparr>)"

fun processFoundersLoop :: "unicode \<Rightarrow> (row \<times> documentStore) list \<Rightarrow> founderRun \<Rightarrow> founderRun" where
  "processFoundersLoop U [] st = st"
| "processFoundersLoop U (x # rest) st = processFoundersLoop U rest (founderStep U x st)"

definition startRun :: "referralMapping \<Rightarrow> founderRun" where
  "startRun mapping =
     \<lparr>counts = \<lparr>processed = 0, created = 0, updated = 0, errors = 0, unmatchedReferrals = 0\<rparr>,
      referralMapping = mapping, errorLog = [], reconciledRows = []\<rparr>"

text \<open>
  \<^verbatim>\<open>processFounders\<close> up to the count of unmatched referrals: an error thrown while the
  mapping is built is outside every \<^verbatim>\<open>try\<close> and ends the call.
\<close>

definition processFounders ::
  "unicode \<Rightarrow> (row \<times> documentStore) list \<Rightarrow> row list \<Rightarrow> error + founderRun"
where
  "processFounders U founderRows referralRows =
     (case createReferralMapping U referralRows of
        Inl e \<Rightarrow> Inl e
      | Inr mapping \<Rightarrow>
          let st = processFoundersLoop U founderRows (startRun mapping) in
          Inr (st\<lparr>counts := (counts st)
                 \<lparr>unmatchedReferrals := length (objectKeys (referralMapping st))\<rparr>\<rparr>))"

section \<open>Reconciliation of searchers (src/processors/searcherProcessor.js)\<close>

text \<open>
  \<^verbatim>\<open>processSingleSearcher\<close>. The matched referrals are recorded by their index in
  \<^verbatim>\<open>allReferrals\<close>: \<^verbatim>\<open>indexOf\<close> compares row objects by identity, and every row of the sheet
  is an object of its own, so a matched row is found at its own position.
\<close>

definition matchedIndices :: "unicode \<Rightarrow> jsstring \<Rightarrow> row list \<Rightarrow> nat \<Rightarrow> nat list" where
  "matchedIndices U searcherName allReferrals col =
     filter (\<lambda>i. findMatchingReferrals U searcherName [allReferrals ! i] col \<noteq> [])
            [0..<length allReferrals]"

definition processSingleSearcher ::
  "unicode \<Rightarrow> row \<Rightarrow> documentStore \<Rightarrow> row list \<Rightarrow> nat set
     \<Rightarrow> (error + bool \<times> bool) \<times> row list \<times> nat set"
where
  "processSingleSearcher U searcherRow store allReferrals matchedReferralIds =
     (let searcherName = trim (orEmpty (cellAt searcherRow 37)) in
      if searcherName = [] then
        (Inl (Error (ascii ''Searcher missing name'')), [], matchedReferralIds)
      else
        let found = findMatchingReferrals U searcherName allReferrals 22 in
        ((case store of
            StoreThrows msg \<Rightarrow> Inl (Error msg)
          | PageExists \<Rightarrow> Inr (False, True)
          | PageAbsent \<Rightarrow> Inr (True, False)),
         found,
         matchedReferralIds \<union> set (matchedIndices U searcherName allReferrals 22)))"

record searcherRun =
  searcherCounts :: results
  matchedReferralIds :: "nat set"
  searcherErrorLog :: "logEntry list"
  searcherReferralsFound :: "(row \<times> row list) list"

definition searcherStep ::
  "unicode \<Rightarrow> row list \<Rightarrow> row \<times> documentStore \<Rightarrow> searcherRun \<Rightarrow> searcherRun"
where
  "searcherStep U referralRows x st =
     (case processSingleSearcher U (fst x) (snd x) referralRows (matchedReferralIds st) of
        (Inr (c, u), found, ids) \<Rightarrow>
          st\<lparr>searcherCounts := (searcherCounts st)
                 \<lparr>processed := processed (searcherCounts st) + 1,
                  created := created (searcherCounts st) + (if c then 1 else 0),
                  updated := updated (searcherCounts st) + (if u then 1 else 0)\<rparr>,
              matchedReferralIds := ids,
              searcherReferralsFound := searcherReferralsFound st @ [(fst x, found)]\<rparr>
      | (Inl e, found, ids) \<Rightarrow>
          st\<lparr>searcherCounts := (searcherCounts st)\<lparr>errors := errors (searcherCounts st) + 1\<rparr>,
              matchedReferralIds := ids,
              searcherErrorLog := searcherErrorLog st @ [ErrorProcessingSearcher (message e)]\<rparr>)"

fun processSearchersLoop ::
  "unicode \<Rightarrow> row list \<Rightarrow> (row \<times> documentStore) list \<Rightarrow> searcherRun \<Rightarrow> searcherRun"
where
  "processSearchersLoop U referralRows [] st = st"
| "processSearchersLoop U referralRows (x # rest) st =
     processSearchersLoop U referralRows rest (searcherStep U referralRows x st)"

definition startSearcherRun :: searcherRun where
  "startSearcherRun =
     \<lparr>searcherCounts =
        \<lparr>processed = 0, created = 0, updated = 0, errors = 0, unmatchedReferrals = 0\<rparr>,
      matchedReferralIds = {}, searcherErrorLog = [], searcherReferralsFound = []\<rparr>"

definition processSearchers :: "unicode \<Rightarrow> (row \<times> documentStore) list \<Rightarrow> row list \<Rightarrow> searcherRun" where
  "processSearchers U searcherRows referralRows =
     (let st = processSearchersLoop U referralRows searcherRows startSearcherRun;
          unmatched = map (\<lambda>i. referralRows ! i)
                        (filter (\<lambda>i. i \<notin> matchedReferralIds st) [0..<length referralRows])
      in st\<lparr>searcherCounts := (searcherCounts st)\<lparr>unmatchedReferrals := length unmatched\<rparr>\<rparr>)"

section \<open>Notions used to state the claims\<close>









section \<open>Example rows\<close>

text \<open>
  A founder row that answers every column from 66 to 115, declares two team members in
  column 118 and leaves the team-member columns 119 to 140 empty.
\<close>

definition teamRow :: row where
  "teamRow = replicate 66 None @ replicate 50 (Some (ascii ''x''))
             @ [None, None, Some (ascii ''2'')] @ replicate 22 None"





section \<open>Properties of the edit distance\<close>

lemma distance_Nil_right [simp]: "distance xs [] = length xs"
  by (cases xs) simp_all

lemma distance_refl [simp]: "distance xs xs = 0"
  by (induction xs) simp_all

text \<open>Putting one code unit in front of either string changes the distance by at most one.\<close>

lemma distance_step_left: "distance xs ys \<le> Suc (distance (x # xs) ys)"
proof (induction ys)
  case Nil then show ?case by simp
next
  case (Cons y ys)
  have U: "distance xs (y # ys) \<le> Suc (distance xs ys)"
    by (cases xs) simp_all
  show ?case using Cons U by (simp add: min_def)
qed

lemma distance_step_right: "distance xs ys \<le> Suc (distance xs (y # ys))"
proof (induction xs)
  case Nil then show ?case by simp
next
  case (Cons x xs)
  have U: "distance (x # xs) ys \<le> Suc (distance xs ys)"
    by (cases ys) simp_all
  show ?case using Cons U by (simp add: min_def)
qed

lemma distance_Cons_same: "distance (x # xs) (x # ys) = distance xs ys"
  using distance_step_left[of xs ys x] distance_step_right[of xs ys x]
  by (simp add: min_def)

lemma distance_eq_0: "distance xs ys = 0 \<longleftrightarrow> xs = ys"
proof (induction xs ys rule: distance.induct)
  case (1 ys) then show ?case by auto
next
  case (2 v va) then show ?case by auto
next
  case (3 x xs y ys)
  then show ?case by (auto simp: min_def split: if_splits)
qed

text \<open>
  Equations that evaluate \<open>distance\<close> on literals without the exponential blow-up of the
  three-way recursion: equal heads are dropped.
\<close>

lemma distance_Cons_diff: "x \<noteq> y \<Longrightarrow> distance (x # xs) (y # ys) =
  Suc (min (min (distance xs (y # ys)) (distance (x # xs) ys)) (distance xs ys))"
  by (simp add: min_def)

lemmas eval_defs = findBestMatch_def normalizeText_def asciiUnicode_def ascii_def trim_def
  isWhiteSpace_def isAlnum_def digitMap_def matchScore_def distance_Cons_same distance_Cons_diff

section \<open>Text normalizer: normal form and idempotence\<close>

lemma not_isAlnum_space [simp]: "\<not> isAlnum 32"
  by (simp add: isAlnum_def)

lemma normalForm_Cons_alnum: "isAlnum c \<Longrightarrow> normalForm cs \<Longrightarrow> normalForm (c # cs)"
  by (cases cs) simp_all

lemma normalForm_Cons_space:
  "normalForm cs \<Longrightarrow> cs = [] \<or> isAlnum (hd cs) \<Longrightarrow> normalForm (32 # cs)"
  by (cases cs) simp_all

lemma replaceNonAlnum_head:
  "s = [] \<or> isAlnum (hd s) \<Longrightarrow> replaceNonAlnum s = [] \<or> isAlnum (hd (replaceNonAlnum s))"
  by (cases s) auto

lemma normalForm_replaceNonAlnum: "normalForm (replaceNonAlnum s)"
proof (induction s rule: replaceNonAlnum.induct)
  case 1
  then show ?case by simp
next
  case (2 c cs)
  show ?case
  proof (cases "isAlnum c")
    case True
    with 2 show ?thesis by (simp add: normalForm_Cons_alnum)
  next
    case False
    let ?d = "dropWhile (\<lambda>d. \<not> isAlnum d) cs"
    have "?d = [] \<or> isAlnum (hd ?d)"
      using hd_dropWhile[of "\<lambda>d. \<not> isAlnum d" cs] by auto
    then have "replaceNonAlnum ?d = [] \<or> isAlnum (hd (replaceNonAlnum ?d))"
      by (rule replaceNonAlnum_head)
    with 2 False show ?thesis by (simp add: normalForm_Cons_space)
  qed
qed

lemma replaceNonAlnum_normalForm: "normalForm s \<Longrightarrow> replaceNonAlnum s = s"
  by (induction s rule: normalForm.induct) auto

lemma normalForm_tl: "normalForm (c # cs) \<Longrightarrow> normalForm cs"
  by (cases cs) simp_all

lemma normalForm_append: "normalForm (xs @ ys) \<Longrightarrow> normalForm xs \<and> normalForm ys"
proof (induction xs rule: normalForm.induct)
  case 1
  then show ?case by simp
next
  case (2 c)
  then show ?case by (cases ys) auto
next
  case (3 c d cs)
  then show ?case by auto
qed

lemma normalForm_plain: "normalForm s \<Longrightarrow> \<forall>c\<in>set s. isAlnum c \<or> c = 32"
  by (induction s rule: normalForm.induct) auto

lemma trim_prefix_suffix: "\<exists>ps ss. s = ps @ trim s @ ss"
proof -
  let ?a = "dropWhile isWhiteSpace s"
  have "s = takeWhile isWhiteSpace s @ ?a" by simp
  moreover have "?a = rev (dropWhile isWhiteSpace (rev ?a)) @ rev (takeWhile isWhiteSpace (rev ?a))"
    by (metis rev_append rev_rev_ident takeWhile_dropWhile_id)
  ultimately show ?thesis unfolding trim_def by metis
qed

lemma normalForm_trim: "normalForm s \<Longrightarrow> normalForm (trim s)"
  using trim_prefix_suffix[of s] normalForm_append by metis

lemma trim_trim: "trim (trim s) = trim s"
proof -
  let ?a = "dropWhile isWhiteSpace s"
  let ?b = "dropWhile isWhiteSpace (rev ?a)"
  have t: "trim s = rev ?b" by (simp add: trim_def)
  have b: "dropWhile isWhiteSpace ?b = ?b" by simp
  have a: "?a = rev ?b @ rev (takeWhile isWhiteSpace (rev ?a))"
    by (metis rev_append rev_rev_ident takeWhile_dropWhile_id)
  have front: "dropWhile isWhiteSpace (rev ?b) = rev ?b"
  proof (cases "rev ?b")
    case Nil
    then show ?thesis by (simp only: dropWhile.simps)
  next
    case (Cons h t)
    with a have "hd ?a = h" "?a \<noteq> []" by (metis hd_append2 list.sel(1) list.distinct(1), metis Nil_is_append_conv list.distinct(1))
    then have "\<not> isWhiteSpace h" using hd_dropWhile[of isWhiteSpace s] by auto
    with Cons show ?thesis by simp
  qed
  show ?thesis unfolding t trim_def[of "rev ?b"] by (simp only: front rev_rev_ident b)
qed

lemma digitMap_plain: "isAlnum c \<or> c = 32 \<Longrightarrow> digitMap c = c"
  by (auto simp: isAlnum_def digitMap_def)

lemma normalForm_normalizeText: "normalForm (normalizeText U t)"
  by (auto simp: normalizeText_def normalForm_trim normalForm_replaceNonAlnum split: option.splits)

lemma trim_Nil [simp]: "trim [] = []"
  by (simp add: trim_def)

lemma normalizeText_trimmed: "trim (normalizeText U t) = normalizeText U t"
  by (cases t) (simp_all add: normalizeText_def trim_trim)

lemma normalizeText_twice:
  assumes "keepsPlainText U"
  shows "normalizeText U (Some (normalizeText U t)) = normalizeText U t"
proof -
  let ?t = "normalizeText U t"
  have nf: "normalForm ?t" by (rule normalForm_normalizeText)
  then have plain: "\<forall>c\<in>set ?t. isAlnum c \<or> c = 32" by (rule normalForm_plain)
  with assms have same: "toLowerCase U ?t = ?t" "normalizeNFKD U ?t = ?t" "removeDiacritics U ?t = ?t"
    unfolding keepsPlainText_def by blast+
  have dm: "map digitMap ?t = ?t" using plain by (simp add: digitMap_plain map_idI)
  have "normalizeText U (Some ?t) = ?t"
  proof (cases "?t = []")
    case True
    then show ?thesis by (simp add: normalizeText_def)
  next
    case False
    then have "normalizeText U (Some ?t) = trim (replaceNonAlnum ?t)"
      by (simp add: normalizeText_def[of U "Some ?t"] same dm)
    also have "\<dots> = trim ?t" using nf by (simp add: replaceNonAlnum_normalForm)
    also have "\<dots> = ?t" by (rule normalizeText_trimmed)
    finally show ?thesis .
  qed
  then show ?thesis .
qed


text \<open>
  C8. For every string \<open>s\<close>, and for \<^verbatim>\<open>null\<close> and the empty string, which both map to
  the empty string, normalizing twice gives what normalizing once gives: the output of
  \<^verbatim>\<open>normalizeText\<close> holds only \<^verbatim>\<open>[a-z0-9]\<close> and single interior spaces, on which every
  step of the chain is the identity. The built-ins enter through the hypothesis that
  they leave such plain strings unchanged.
\<close>

theorem normalizeText_idempotent:
  assumes "keepsPlainText U"
  shows "normalizeText U (Some (normalizeText U text)) = normalizeText U text
       \<and> normalizeText U None = [] \<and> normalizeText U (Some []) = []"
  using normalizeText_twice[OF assms] by (simp add: normalizeText_def)

lemma keepsPlainText_ascii: "keepsPlainText asciiUnicode"
proof -
  have "map (\<lambda>c. if 65 \<le> c \<and> c \<le> 90 then c + 32 else c) s = s
      \<and> filter (\<lambda>c. c \<noteq> 94 \<and> c \<noteq> 96) s = s"
    if "\<forall>c\<in>set s. isAlnum c \<or> c = 32" for s :: jsstring
  proof
    show "map (\<lambda>c. if 65 \<le> c \<and> c \<le> 90 then c + 32 else c) s = s"
      using that by (intro map_idI) (auto simp: isAlnum_def)
    show "filter (\<lambda>c. c \<noteq> 94 \<and> c \<noteq> 96) s = s"
      using that by (auto simp: filter_id_conv isAlnum_def)
  qed
  then show ?thesis by (simp add: keepsPlainText_def asciiUnicode_def)
qed

theorem normalizeText_idempotent_witness:
  "keepsPlainText asciiUnicode
   \<and> normalizeText asciiUnicode (Some (ascii ''  Acme  Co. ^2!'')) = ascii ''acme co 2''
   \<and> normalizeText asciiUnicode (Some (normalizeText asciiUnicode (Some (ascii ''  Acme  Co. ^2!''))))
       = ascii ''acme co 2''"
proof -
  have k: "keepsPlainText asciiUnicode" by (rule keepsPlainText_ascii)
  have e: "normalizeText asciiUnicode (Some (ascii ''  Acme  Co. ^2!'')) = ascii ''acme co 2''"
    by (simp add: eval_defs)
  show ?thesis
    using normalizeText_idempotent[OF k, of "Some (ascii ''  Acme  Co. ^2!'')"] k e by simp
qed

section \<open>Fuzzy matcher: what the loop computes\<close>

text \<open>
  With \<open>f\<close> the score of a candidate, the loop either leaves its state alone (no
  non-empty candidate scores below \<open>bestScore\<close>), or ends on the first non-empty
  candidate of minimal score: every candidate before it scores strictly more, every
  candidate after it at least as much.
\<close>

lemma findBestMatchLoop_char:
  fixes U nt
  defines "f \<equiv> \<lambda>c. distance nt (normalizeText U (Some c))"
  assumes "findBestMatchLoop U nt cs (bm, bs) = (bm', bs')"
  shows "(bm' = bm \<and> bs' = bs \<and> (\<forall>c\<in>set (filter (\<lambda>c. c \<noteq> []) cs). bs \<le> enat (f c)))
       \<or> (\<exists>pre m post. filter (\<lambda>c. c \<noteq> []) cs = pre @ m # post \<and> bm' = Some m
            \<and> bs' = enat (f m) \<and> enat (f m) < bs
            \<and> (\<forall>c\<in>set pre. f m < f c) \<and> (\<forall>c\<in>set post. f m \<le> f c))"
  using assms(2)
proof (induction cs arbitrary: bm bs)
  case Nil
  then show ?case by simp
next
  case (Cons c cs)
  show ?case
  proof (cases "c = []")
    case True
    with Cons show ?thesis by simp
  next
    case ne: False
    show ?thesis
    proof (cases "enat (f c) < bs")
      case True
      with ne Cons.prems have run: "findBestMatchLoop U nt cs (Some c, enat (f c)) = (bm', bs')"
        by (simp add: f_def)
      from Cons.IH[OF run] show ?thesis
      proof
        assume same: "bm' = Some c \<and> bs' = enat (f c)
            \<and> (\<forall>d\<in>set (filter (\<lambda>c. c \<noteq> []) cs). enat (f c) \<le> enat (f d))"
        have "filter (\<lambda>c. c \<noteq> []) (c # cs) = [] @ c # filter (\<lambda>c. c \<noteq> []) cs"
          using ne by simp
        with same True show ?thesis by (intro disjI2 exI[of _ "[]"] exI[of _ c] exI) auto
      next
        assume "\<exists>pre m post. filter (\<lambda>c. c \<noteq> []) cs = pre @ m # post \<and> bm' = Some m
            \<and> bs' = enat (f m) \<and> enat (f m) < enat (f c)
            \<and> (\<forall>c\<in>set pre. f m < f c) \<and> (\<forall>c\<in>set post. f m \<le> f c)"
        then obtain pre m post where d: "filter (\<lambda>c. c \<noteq> []) cs = pre @ m # post"
          "bm' = Some m" "bs' = enat (f m)" "enat (f m) < enat (f c)"
          "\<forall>c\<in>set pre. f m < f c" "\<forall>c\<in>set post. f m \<le> f c" by blast
        have "filter (\<lambda>c. c \<noteq> []) (c # cs) = (c # pre) @ m # post"
          using ne d(1) by simp
        moreover have "enat (f m) < bs" using d(4) True by (rule less_trans)
        moreover have "\<forall>x\<in>set (c # pre). f m < f x" using d(4,5) by simp
        ultimately show ?thesis using d(2,3,6) by blast
      qed
    next
      case False
      with ne Cons.prems have run: "findBestMatchLoop U nt cs (bm, bs) = (bm', bs')"
        by (simp add: f_def)
      from False have le: "bs \<le> enat (f c)" by simp
      from Cons.IH[OF run] show ?thesis
      proof
        assume "bm' = bm \<and> bs' = bs \<and> (\<forall>c\<in>set (filter (\<lambda>c. c \<noteq> []) cs). bs \<le> enat (f c))"
        with le ne show ?thesis by simp
      next
        assume "\<exists>pre m post. filter (\<lambda>c. c \<noteq> []) cs = pre @ m # post \<and> bm' = Some m
            \<and> bs' = enat (f m) \<and> enat (f m) < bs
            \<and> (\<forall>c\<in>set pre. f m < f c) \<and> (\<forall>c\<in>set post. f m \<le> f c)"
        then obtain pre m post where d: "filter (\<lambda>c. c \<noteq> []) cs = pre @ m # post"
          "bm' = Some m" "bs' = enat (f m)" "enat (f m) < bs"
          "\<forall>c\<in>set pre. f m < f c" "\<forall>c\<in>set post. f m \<le> f c" by blast
        have "filter (\<lambda>c. c \<noteq> []) (c # cs) = (c # pre) @ m # post"
          using ne d(1) by simp
        moreover have "enat (f m) < enat (f c)" using d(4) le by (rule less_le_trans)
        then have "\<forall>x\<in>set (c # pre). f m < f x" using d(5) by simp
        ultimately show ?thesis using d(2,3,4,6) by blast
      qed
    qed
  qed
qed

lemma findBestMatch_cases:
  assumes "target \<noteq> []"
  shows "(findBestMatch U target candidates maxDistance = None
          \<and> (\<forall>c\<in>set (filter (\<lambda>c. c \<noteq> []) candidates). maxDistance < matchScore U target c))
       \<or> (\<exists>pre m post. filter (\<lambda>c. c \<noteq> []) candidates = pre @ m # post
            \<and> findBestMatch U target candidates maxDistance = Some m
            \<and> matchScore U target m \<le> maxDistance
            \<and> (\<forall>c\<in>set pre. matchScore U target m < matchScore U target c)
            \<and> (\<forall>c\<in>set post. matchScore U target m \<le> matchScore U target c))"
proof -
  obtain bm bs where run:
    "findBestMatchLoop U (normalizeText U (Some target)) candidates (None, \<infinity>) = (bm, bs)"
    by (cases "findBestMatchLoop U (normalizeText U (Some target)) candidates (None, \<infinity>)")
  have res: "findBestMatch U target candidates maxDistance
      = (if bs \<le> enat maxDistance then bm else None)"
    using assms run by (simp add: findBestMatch_def)
  from findBestMatchLoop_char[OF run] show ?thesis
  proof
    assume "bm = None \<and> bs = \<infinity> \<and> (\<forall>c\<in>set (filter (\<lambda>c. c \<noteq> []) candidates).
        \<infinity> \<le> enat (distance (normalizeText U (Some target)) (normalizeText U (Some c))))"
    then show ?thesis using res by auto
  next
    assume "\<exists>pre m post. filter (\<lambda>c. c \<noteq> []) candidates = pre @ m # post \<and> bm = Some m
      \<and> bs = enat (distance (normalizeText U (Some target)) (normalizeText U (Some m)))
      \<and> enat (distance (normalizeText U (Some target)) (normalizeText U (Some m))) < \<infinity>
      \<and> (\<forall>c\<in>set pre. distance (normalizeText U (Some target)) (normalizeText U (Some m))
            < distance (normalizeText U (Some target)) (normalizeText U (Some c)))
      \<and> (\<forall>c\<in>set post. distance (normalizeText U (Some target)) (normalizeText U (Some m))
            \<le> distance (normalizeText U (Some target)) (normalizeText U (Some c)))"
    then obtain pre m post where d:
      "filter (\<lambda>c. c \<noteq> []) candidates = pre @ m # post" "bm = Some m"
      "bs = enat (matchScore U target m)"
      "\<forall>c\<in>set pre. matchScore U target m < matchScore U target c"
      "\<forall>c\<in>set post. matchScore U target m \<le> matchScore U target c"
      unfolding matchScore_def by blast
    show ?thesis
    proof (cases "matchScore U target m \<le> maxDistance")
      case True
      then show ?thesis using res d by auto
    next
      case False
      have "\<forall>c\<in>set (pre @ m # post). maxDistance < matchScore U target c"
        using False d(4,5) by (auto simp: not_le intro: less_trans less_le_trans)
      then show ?thesis using res d False by auto
    qed
  qed
qed

text \<open>
  C4. The claim, as stated for every target key, fails on the guards of
  \<^verbatim>\<open>findBestMatch\<close>: an empty target returns \<^verbatim>\<open>null\<close> at once although the candidate
  \<^verbatim>\<open>"ab"\<close> is at distance 2, and an empty candidate is skipped although it is at
  distance 1 from the target \<^verbatim>\<open>"a"\<close>.
\<close>

theorem findBestMatch_empty_target_counterexample:
  "findBestMatch asciiUnicode [] [ascii ''ab''] 2 = None
   \<and> distance [] (ascii ''ab'') = 2
   \<and> findBestMatch asciiUnicode (ascii ''a'') [[]] 2 = None
   \<and> distance (ascii ''a'') [] = 1"
  by (simp add: eval_defs del: distance.simps(3))

text \<open>
  C4 (amended). For every non-empty target, every list of candidates and every threshold
  \<open>maxDistance\<close>, \<^verbatim>\<open>findBestMatch\<close> scores each non-empty candidate by the Levenshtein
  distance between the normalized target and the normalized candidate. When every scored
  candidate exceeds \<open>maxDistance\<close> it returns \<^verbatim>\<open>null\<close>; when some scored candidate is
  within \<open>maxDistance\<close> it returns a candidate of minimal score, namely the first one in
  iteration order (all candidates before it score strictly more, all after it at least
  as much). An empty target always gives \<^verbatim>\<open>null\<close>. On normalized keys the score is the
  plain distance between the keys (see \<open>normalizeText_twice\<close>).
\<close>

theorem findBestMatch_first_minimum:
  assumes "target \<noteq> []"
  shows "((\<forall>c\<in>set (filter (\<lambda>c. c \<noteq> []) candidates). maxDistance < matchScore U target c)
            \<longrightarrow> findBestMatch U target candidates maxDistance = None)
       \<and> ((\<exists>c\<in>set (filter (\<lambda>c. c \<noteq> []) candidates). matchScore U target c \<le> maxDistance)
            \<longrightarrow> (\<exists>pre m post. filter (\<lambda>c. c \<noteq> []) candidates = pre @ m # post
                  \<and> findBestMatch U target candidates maxDistance = Some m
                  \<and> matchScore U target m \<le> maxDistance
                  \<and> (\<forall>c\<in>set pre. matchScore U target m < matchScore U target c)
                  \<and> (\<forall>c\<in>set post. matchScore U target m \<le> matchScore U target c)))
       \<and> findBestMatch U [] candidates maxDistance = None"
proof (intro conjI impI)
  assume far: "\<forall>c\<in>set (filter (\<lambda>c. c \<noteq> []) candidates). maxDistance < matchScore U target c"
  from findBestMatch_cases[OF assms, of U candidates maxDistance]
  show "findBestMatch U target candidates maxDistance = None"
  proof
    assume "\<exists>pre m post. filter (\<lambda>c. c \<noteq> []) candidates = pre @ m # post
            \<and> findBestMatch U target candidates maxDistance = Some m
            \<and> matchScore U target m \<le> maxDistance
            \<and> (\<forall>c\<in>set pre. matchScore U target m < matchScore U target c)
            \<and> (\<forall>c\<in>set post. matchScore U target m \<le> matchScore U target c)"
    then obtain pre m post where "filter (\<lambda>c. c \<noteq> []) candidates = pre @ m # post"
      "matchScore U target m \<le> maxDistance" by blast
    with far show ?thesis by auto
  qed simp
next
  assume "\<exists>c\<in>set (filter (\<lambda>c. c \<noteq> []) candidates). matchScore U target c \<le> maxDistance"
  with findBestMatch_cases[OF assms, of U candidates maxDistance]
  show "\<exists>pre m post. filter (\<lambda>c. c \<noteq> []) candidates = pre @ m # post
                  \<and> findBestMatch U target candidates maxDistance = Some m
                  \<and> matchScore U target m \<le> maxDistance
                  \<and> (\<forall>c\<in>set pre. matchScore U target m < matchScore U target c)
                  \<and> (\<forall>c\<in>set post. matchScore U target m \<le> matchScore U target c)"
    by (auto simp: not_less[symmetric])
next
  show "findBestMatch U [] candidates maxDistance = None"
    by (simp add: findBestMatch_def)
qed

theorem findBestMatch_first_minimum_witness:
  "ascii ''acme'' \<noteq> []
   \<and> findBestMatch asciiUnicode (ascii ''acme'') [ascii ''acne'', [], ascii ''acma''] 2
       = Some (ascii ''acne'')
   \<and> matchScore asciiUnicode (ascii ''acme'') (ascii ''acne'') = 1
   \<and> matchScore asciiUnicode (ascii ''acme'') (ascii ''acma'') = 1
   \<and> findBestMatch asciiUnicode (ascii ''acme'') [ascii ''zebra'', ascii ''ac''] 1 = None"
  using findBestMatch_first_minimum[of "ascii ''acme''" "[ascii ''acne'', [], ascii ''acma'']" 2 asciiUnicode]
  by (simp add: eval_defs del: distance.simps(3))

text \<open>
  C5. The claim fails for the empty key: \<^verbatim>\<open>findBestMatch("", [""])\<close> returns \<^verbatim>\<open>null\<close>,
  because an empty target is rejected before any candidate is read.
\<close>

theorem findBestMatch_self_counterexample:
  "findBestMatch asciiUnicode [] [[]] 2 = None \<and> [] \<in> set [[]::jsstring]"
  by (simp add: findBestMatch_def)

text \<open>
  C5 (amended). For every non-empty target that occurs verbatim among the candidates,
  \<^verbatim>\<open>findBestMatch\<close> returns a candidate at score 0 (one whose normalized form equals the
  target's), whatever the threshold; in particular \<^verbatim>\<open>findBestMatch(k, [k])\<close> returns
  \<open>k\<close> for every non-empty \<open>k\<close>.
\<close>

theorem findBestMatch_verbatim:
  assumes "target \<noteq> []"
  shows "(target \<in> set candidates \<longrightarrow>
           (\<exists>m. findBestMatch U target candidates maxDistance = Some m \<and> m \<in> set candidates
                \<and> matchScore U target m = 0
                \<and> normalizeText U (Some m) = normalizeText U (Some target)))
       \<and> findBestMatch U target [target] maxDistance = Some target"
proof -
  have gen: "\<exists>m. findBestMatch U target cs maxDistance = Some m \<and> m \<in> set cs
                \<and> matchScore U target m = 0" if mem: "target \<in> set cs" for cs
  proof -
    have in': "target \<in> set (filter (\<lambda>c. c \<noteq> []) cs)" using mem assms by simp
    have zero: "matchScore U target target = 0" by (simp add: matchScore_def)
    from findBestMatch_cases[OF assms, of U cs maxDistance] show ?thesis
    proof
      assume "findBestMatch U target cs maxDistance = None
          \<and> (\<forall>c\<in>set (filter (\<lambda>c. c \<noteq> []) cs). maxDistance < matchScore U target c)"
      with in' zero show ?thesis by auto
    next
      assume "\<exists>pre m post. filter (\<lambda>c. c \<noteq> []) cs = pre @ m # post
            \<and> findBestMatch U target cs maxDistance = Some m
            \<and> matchScore U target m \<le> maxDistance
            \<and> (\<forall>c\<in>set pre. matchScore U target m < matchScore U target c)
            \<and> (\<forall>c\<in>set post. matchScore U target m \<le> matchScore U target c)"
      then obtain pre m post where d: "filter (\<lambda>c. c \<noteq> []) cs = pre @ m # post"
        "findBestMatch U target cs maxDistance = Some m"
        "\<forall>c\<in>set pre. matchScore U target m < matchScore U target c"
        "\<forall>c\<in>set post. matchScore U target m \<le> matchScore U target c" by blast
      have "target \<in> set pre \<or> target = m \<or> target \<in> set post" using in' d(1) by auto
      then have "matchScore U target m = 0" using d(3,4) zero by auto
      moreover have "m \<in> set cs"
      proof -
        have "m \<in> set (filter (\<lambda>c. c \<noteq> []) cs)" unfolding d(1) by simp
        then show ?thesis by simp
      qed
      ultimately show ?thesis using d(2) by blast
    qed
  qed
  have one: "findBestMatch U target [target] maxDistance = Some target"
    using gen[of "[target]"] by auto
  have "\<exists>m. findBestMatch U target candidates maxDistance = Some m \<and> m \<in> set candidates
                \<and> matchScore U target m = 0
                \<and> normalizeText U (Some m) = normalizeText U (Some target)"
    if "target \<in> set candidates"
    using gen[OF that] by (auto simp: matchScore_def distance_eq_0)
  with one show ?thesis by blast
qed

theorem findBestMatch_verbatim_witness:
  "ascii ''acme corp'' \<noteq> []
   \<and> ascii ''acme corp'' \<in> set [ascii ''acme cor'', ascii ''acme corp'']
   \<and> findBestMatch asciiUnicode (ascii ''acme corp'') [ascii ''acme cor'', ascii ''acme corp''] 2
        = Some (ascii ''acme corp'')
   \<and> findBestMatch asciiUnicode (ascii ''acme corp'') [ascii ''acme corp''] 2
        = Some (ascii ''acme corp'')"
  using findBestMatch_verbatim[of "ascii ''acme corp''" "[ascii ''acme cor'', ascii ''acme corp'']" asciiUnicode 2]
  by (simp add: eval_defs del: distance.simps(3))

section \<open>Row classifier: partition and totality\<close>

lemma classifyFormType_intent_cell:
  "classifyFormType U (IsArray r) = classifyFormType U (IsArray [None, None, None, cellAt r 3])"
  by (simp add: classifyFormType_def cellAt_def)

lemma categorizeLoop_filter:
  "categorizeLoop U rs cats =
     \<lparr>founders = founders cats @ filter (\<lambda>r. classifyFormType U (IsArray r) = FormType Founder) rs,
      founderReferrals = founderReferrals cats
         @ filter (\<lambda>r. classifyFormType U (IsArray r) = FormType FounderReferral) rs,
      searchers = searchers cats @ filter (\<lambda>r. classifyFormType U (IsArray r) = FormType Searcher) rs,
      searcherReferrals = searcherReferrals cats
         @ filter (\<lambda>r. classifyFormType U (IsArray r) = FormType SearcherReferral) rs,
      unknown = unknown cats
         @ filter (\<lambda>r. classifyFormType U (IsArray r) \<noteq> FormType Founder
                      \<and> classifyFormType U (IsArray r) \<noteq> FormType FounderReferral
                      \<and> classifyFormType U (IsArray r) \<noteq> FormType Searcher
                      \<and> classifyFormType U (IsArray r) \<noteq> FormType SearcherReferral) rs\<rparr>"
proof (induction rs arbitrary: cats)
  case Nil
  then show ?case by simp
next
  case (Cons r rs)
  show ?case
    by (simp add: Cons.IH split: classification.splits formType.splits)
qed

lemma five_way_partition:
  "length (filter (\<lambda>r. f r = FormType Founder) rs)
   + length (filter (\<lambda>r. f r = FormType FounderReferral) rs)
   + length (filter (\<lambda>r. f r = FormType Searcher) rs)
   + length (filter (\<lambda>r. f r = FormType SearcherReferral) rs)
   + length (filter (\<lambda>r. f r \<noteq> FormType Founder \<and> f r \<noteq> FormType FounderReferral
                      \<and> f r \<noteq> FormType Searcher \<and> f r \<noteq> FormType SearcherReferral) rs)
   = length rs"
  by (induction rs) auto

text \<open>
  C9. For every list of rows, \<^verbatim>\<open>categorizeAllForms\<close> puts each row into exactly one of the
  five arrays, the one its classification selects: each array is the input list filtered
  by one of five mutually exclusive and exhaustive conditions, so the rows of an array
  keep their input order and the five lengths add up to the number of rows. The
  classification is a function of the row alone, and indeed of its intent cell (column 3)
  alone.
\<close>

theorem categorizeAllForms_partition:
  "founders (categorizeAllForms U allRows)
      = filter (\<lambda>r. classifyFormType U (IsArray r) = FormType Founder) allRows
   \<and> founderReferrals (categorizeAllForms U allRows)
      = filter (\<lambda>r. classifyFormType U (IsArray r) = FormType FounderReferral) allRows
   \<and> searchers (categorizeAllForms U allRows)
      = filter (\<lambda>r. classifyFormType U (IsArray r) = FormType Searcher) allRows
   \<and> searcherReferrals (categorizeAllForms U allRows)
      = filter (\<lambda>r. classifyFormType U (IsArray r) = FormType SearcherReferral) allRows
   \<and> unknown (categorizeAllForms U allRows)
      = filter (\<lambda>r. classifyFormType U (IsArray r) \<noteq> FormType Founder
                      \<and> classifyFormType U (IsArray r) \<noteq> FormType FounderReferral
                      \<and> classifyFormType U (IsArray r) \<noteq> FormType Searcher
                      \<and> classifyFormType U (IsArray r) \<noteq> FormType SearcherReferral) allRows
   \<and> length (founders (categorizeAllForms U allRows))
     + length (founderReferrals (categorizeAllForms U allRows))
     + length (searchers (categorizeAllForms U allRows))
     + length (searcherReferrals (categorizeAllForms U allRows))
     + length (unknown (categorizeAllForms U allRows)) = length allRows
   \<and> classifyFormType U (IsArray r) = classifyFormType U (IsArray [None, None, None, cellAt r 3])"
  using classifyFormType_intent_cell[of U r]
  by (simp add: categorizeAllForms_def categorizeLoop_filter five_way_partition)

lemmas classify_defs = classifyFormType_def objectLookup_def FORM_TYPE_MAPPINGS_def
  objectPrototypeNames_def cellAt_def orEmpty_def

text \<open>
  For an argument that is \<^verbatim>\<open>null\<close>, \<^verbatim>\<open>undefined\<close> or not an array the classifier
  returns \<^verbatim>\<open>"unknown"\<close>, and on rows it always returns a value (the model is a total
  function: no branch throws on string or missing cells).
\<close>

lemma classifyFormType_total:
  "classifyFormType U JsNull = FormType Unknown
   \<and> classifyFormType U JsUndefined = FormType Unknown
   \<and> classifyFormType U NotAnArray = FormType Unknown
   \<and> (\<exists>c. classifyFormType U (IsArray r) = c)"
  by (simp add: classifyFormType_def)

lemma classify_founder_example:
  "classifyFormType asciiUnicode (IsArray [None, None, None,
      Some (ascii ''  I am a founder and I want to take my startup to the moon. '')])
     = FormType Founder"
  by (simp add: classify_defs eval_defs)

lemma classify_missing:
  "classifyFormType asciiUnicode (IsArray [None, None]) = FormType Unknown
  \<and> classifyFormType asciiUnicode (IsArray [None, None, None, Some (ascii ''hello'')]) = FormType Unknown"
  by (simp add: classify_defs eval_defs)

text \<open>
  C10. The claim says that an intent cell outside the vocabulary is classified
  \<^verbatim>\<open>"unknown"\<close>. The code looks the lower-cased cell up in the object literal
  \<^verbatim>\<open>FORM_TYPE_MAPPINGS\<close> with \<^verbatim>\<open>FORM_TYPE_MAPPINGS[formIntent]\<close>; for the cell
  \<^verbatim>\<open>"constructor"\<close>, which is not one of the four phrases, the lookup finds the member
  inherited from \<^verbatim>\<open>Object.prototype\<close>, which is truthy, and the function returns that
  member instead of \<^verbatim>\<open>"unknown"\<close>.
\<close>

theorem classifyFormType_constructor:
  "classifyFormType asciiUnicode (IsArray [Some [], Some [], Some [], Some (ascii ''constructor'')])
     = PrototypeMember
   \<and> map_of FORM_TYPE_MAPPINGS (ascii ''constructor'') = None"
  by (simp add: classify_defs eval_defs)

section \<open>Derived fields: tier label and completion percentage\<close>

text \<open>
  C7. The tier label handed to the document store depends on the matched referral rows
  through their number only: none for 0, the labels I, II, III, IV (with the suffix
  Endorsement(s) for founders, Referral(s) for searchers) for 1 to 4, and the single
  V+ label for every count from 5 on.
\<close>

theorem tierLabel_table:
  "tierLabel (founderMetrics founderRow refs) = founderStatusName (length refs)
   \<and> tierLabel (searcherMetrics searcherRow refs) = searcherReferralStatusName (length refs)
   \<and> founderStatusName 0 = None
   \<and> founderStatusName 1 = Some (ascii ''I Endorsement'')
   \<and> founderStatusName 2 = Some (ascii ''II Endorsements'')
   \<and> founderStatusName 3 = Some (ascii ''III Endorsements'')
   \<and> founderStatusName 4 = Some (ascii ''IV Endorsements'')
   \<and> founderStatusName (5 + n) = Some (ascii ''V+ Endorsements'')
   \<and> searcherReferralStatusName 0 = None
   \<and> searcherReferralStatusName 1 = Some (ascii ''I Referral'')
   \<and> searcherReferralStatusName 2 = Some (ascii ''II Referrals'')
   \<and> searcherReferralStatusName 3 = Some (ascii ''III Referrals'')
   \<and> searcherReferralStatusName 4 = Some (ascii ''IV Referrals'')
   \<and> searcherReferralStatusName (5 + n) = Some (ascii ''V+ Referrals'')"
  by (simp add: founderMetrics_def searcherMetrics_def founderStatusName_def
      searcherReferralStatusName_def)

lemma countFilledFields_eq:
  "countFilledFields r indices = length (filter (\<lambda>i. hasContent (cellAt r i)) indices)"
proof -
  have "foldl (\<lambda>count index. count + (if hasContent (cellAt r index) then 1 else 0)) a indices
      = a + length (filter (\<lambda>i. hasContent (cellAt r i)) indices)" for a
    by (induction indices arbitrary: a) auto
  then show ?thesis by (simp add: countFilledFields_def)
qed

lemma relevantIndices_eq: "relevantIndices = [66..<116]"
proof -
  have "map (\<lambda>i. 66 + i) [0..<50] = map (\<lambda>i. i + 66) [0..<50]"
    by (rule map_cong[OF refl]) simp
  also have "\<dots> = [66..<50 + 66]" by (rule map_add_upt)
  finally show ?thesis by (simp add: relevantIndices_def)
qed

lemma length_relevantIndices: "length relevantIndices = 50"
  by (simp add: relevantIndices_def)

lemma mathRound_percent: "mathRound ((of_nat a / of_nat 50) * 100) = 2 * int a"
proof -
  have q: "(of_nat a / of_nat 50) * 100 = (of_int (2 * int a) :: rat)" by simp
  have "\<lfloor>(of_int (2 * int a) :: rat) + 1 / 2\<rfloor> = 2 * int a"
    by (rule floor_unique) simp_all
  then show ?thesis unfolding mathRound_def q .
qed

lemma countFilledFields_le: "countFilledFields r relevantIndices \<le> 50"
  using length_filter_le[of "\<lambda>i. hasContent (cellAt r i)" relevantIndices]
  by (simp add: countFilledFields_eq length_relevantIndices)

lemma teamRow_cells:
  "i < 66 \<Longrightarrow> cellAt teamRow i = None"
  "66 \<le> i \<Longrightarrow> i < 116 \<Longrightarrow> cellAt teamRow i = Some (ascii ''x'')"
  by (auto simp: cellAt_def teamRow_def nth_append)

lemma hasContent_x: "hasContent (Some (ascii ''x''))"
  by (simp add: hasContent_def ascii_def trim_def isWhiteSpace_def)

lemma teamRow_filled:
  "countFilledFields teamRow relevantIndices = 50"
proof -
  have "hasContent (cellAt teamRow i)" if "i \<in> set [66..<116::nat]" for i
  proof -
    from that have "66 \<le> i" "i < 116" by auto
    then show ?thesis by (simp only: teamRow_cells hasContent_x)
  qed
  then have "filter (\<lambda>i. hasContent (cellAt teamRow i)) [66..<116] = [66..<116]"
    by (intro filter_True ballI)
  then show ?thesis by (simp only: countFilledFields_eq relevantIndices_eq length_upt)
qed

text \<open>
  C6. The claim has the list of required columns grow by one range per declared team
  member. In \<^verbatim>\<open>createFounderPage\<close> and \<^verbatim>\<open>updateFounderPage\<close> it does not: \<open>teamRow\<close>
  declares two team members and leaves their 22 columns empty, and its completion is 100,
  not the 69 that 50 answers out of 72 required columns would give.
\<close>

theorem completionPercent_team_counterexample:
  "cellAt teamRow 118 = Some (ascii ''2'')
   \<and> hasContent (cellAt teamRow 119) = False
   \<and> completionPercent teamRow = 100
   \<and> mathRound (100 * 50 / (50 + 2 * 11)) = 69"
proof -
  have a: "cellAt teamRow 118 = Some (ascii ''2'')"
    by (simp add: cellAt_def teamRow_def nth_append)
  have a': "hasContent (cellAt teamRow 119) = False"
    by (simp add: cellAt_def teamRow_def nth_append hasContent_def)
  have b: "completionPercent teamRow = 100"
    unfolding completionPercent_def Let_def teamRow_filled length_relevantIndices
    using mathRound_percent[of 50] by simp
  have c: "mathRound (100 * 50 / (50 + 2 * 11)) = 69"
    unfolding mathRound_def by (rule floor_unique) simp_all
  from a a' b c show ?thesis by simp
qed

text \<open>
  C6 (amended). For every founder row, the completion percentage computed by
  \<^verbatim>\<open>createFounderPage\<close> and \<^verbatim>\<open>updateFounderPage\<close> is
  \<open>round(100 * filled / total)\<close> over the fixed columns 66 to 115 (\<open>total = 50\<close>, with no
  extension for team members), which is twice the number of filled columns; it lies
  between 0 and 100 and is the value written to the page.
\<close>

theorem completionPercent_fixed_columns:
  "completionPercent founderRow
      = mathRound (100 * of_nat (length (filter (\<lambda>i. hasContent (cellAt founderRow i)) [66..<116]))
                     / of_nat (length [66..<116::nat]))
   \<and> completionPercent founderRow
      = 2 * int (length (filter (\<lambda>i. hasContent (cellAt founderRow i)) [66..<116]))
   \<and> 0 \<le> completionPercent founderRow \<and> completionPercent founderRow \<le> 100
   \<and> completion (founderMetrics founderRow refs) = Some (completionPercent founderRow)"
proof -
  let ?a = "length (filter (\<lambda>i. hasContent (cellAt founderRow i)) [66..<116])"
  have a: "countFilledFields founderRow relevantIndices = ?a"
    by (simp add: countFilledFields_eq relevantIndices_eq)
  have le: "?a \<le> 50" using countFilledFields_le[of founderRow] a by simp
  have p: "completionPercent founderRow = 2 * int ?a"
    using mathRound_percent[of ?a]
    by (simp add: completionPercent_def a length_relevantIndices Let_def)
  have "mathRound (100 * of_nat ?a / of_nat (length [66..<116::nat])) = 2 * int ?a"
    using mathRound_percent[of ?a] by (simp add: mult.commute)
  with p le show ?thesis by (simp add: founderMetrics_def)
qed

section \<open>Reconciliation: claiming a bucket removes it\<close>


























section \<open>Failure isolation in the loops\<close>














section \<open>Referral index: what createReferralMapping builds\<close>








section \<open>Reconciliation: which referrals a primary row receives\<close>










end
